theory Spec2Isabelle
  imports
    Main
    "HOL-Library.Char_ord"
    "HOL-Library.List_Lexorder"
    "HOL-Library.Sublist"
    "HOL-Library.Multiset"
begin

section \<open>Character appearance counts: the model of \<open>hp_character_appearance.py\<close>\<close>

text \<open>
  The script counts the names of a vocabulary in a list of novels, arranges the counts in a
  long-format table, keeps the characters whose counts change most, orders them and plots them.
  Every function of the script is a function here, under its own name. The calls into nltk
  and pandas are modelled by what they return: the tokenizer is a parameter of the model, a
  data frame is the list of its rows, a float column holds \<open>nat option\<close> (\<open>None\<close> is NaN;
  the present values are counts).
\<close>

subsection \<open>Python strings\<close>

text \<open>
  A Python \<open>str\<close> is a \<open>string\<close>. The case mappings and \<open>isalpha\<close> are modelled on the
  ASCII letters: every other character is unchanged by \<open>lower\<close> and is not alphabetic.
  Strings compare as in Python, lexicographically by code point.
\<close>

definition ascii_uppercase :: string where
  "ascii_uppercase = ''ABCDEFGHIJKLMNOPQRSTUVWXYZ''"

definition ascii_lowercase :: string where
  "ascii_lowercase = ''abcdefghijklmnopqrstuvwxyz''"

definition lower_char :: "char \<Rightarrow> char" where
  "lower_char c =
     (case map_of (zip ascii_uppercase ascii_lowercase) c of Some l \<Rightarrow> l | None \<Rightarrow> c)"

definition upper_char :: "char \<Rightarrow> char" where
  "upper_char c =
     (case map_of (zip ascii_lowercase ascii_uppercase) c of Some u \<Rightarrow> u | None \<Rightarrow> c)"

definition isalpha_char :: "char \<Rightarrow> bool" where
  "isalpha_char c = (c \<in> set (ascii_uppercase @ ascii_lowercase))"

text \<open>\<open>str.lower()\<close>.\<close>

definition lower :: "string \<Rightarrow> string" where
  "lower s = map lower_char s"

text \<open>\<open>str.isalpha()\<close>: at least one character, and all of them letters.\<close>

definition isalpha :: "string \<Rightarrow> bool" where
  "isalpha s = (s \<noteq> [] \<and> list_all isalpha_char s)"

text \<open>\<open>str.capitalize()\<close>: the first character in upper case, the rest in lower case.\<close>

fun capitalize :: "string \<Rightarrow> string" where
  "capitalize [] = []"
| "capitalize (c # cs) = upper_char c # lower cs"

subsection \<open>\<open>normalize_word\<close>\<close>

text \<open>
  \<open>re.sub(r"'s$", '', word)\<close> scans the word from the left for an apostrophe followed by a
  lower-case \<open>s\<close> at the end of the string; without \<open>re.MULTILINE\<close> the anchor \<open>$\<close> also
  matches just before one final newline. The match is replaced by the empty string and
  the scan goes on behind it. No flag makes the pattern ignore case.
\<close>

fun re_sub_possessive :: "string \<Rightarrow> string" where
  "re_sub_possessive (c1 # c2 # rest) =
     (if c1 = CHR 0x27 \<and> c2 = CHR ''s'' \<and> (rest = [] \<or> rest = [CHR 0x0A])
      then re_sub_possessive rest
      else c1 # re_sub_possessive (c2 # rest))"
| "re_sub_possessive word = word"

definition normalize_word :: "string \<Rightarrow> string" where
  "normalize_word word = (let word = re_sub_possessive word in lower word)"

subsection \<open>Dictionaries and \<open>Counter\<close>\<close>

definition dict_get :: "('k \<rightharpoonup> 'v) \<Rightarrow> 'k \<Rightarrow> 'v \<Rightarrow> 'v" where
  "dict_get d k dflt = (case d k of None \<Rightarrow> dflt | Some v \<Rightarrow> v)"

text \<open>\<open>Counter(iterable)\<close> adds one to the entry of every element it meets.\<close>

definition Counter :: "'k list \<Rightarrow> ('k \<rightharpoonup> nat)" where
  "Counter elems = fold (\<lambda>e c. c(e \<mapsto> dict_get c e 0 + 1)) elems Map.empty"

subsection \<open>\<open>count_word_frequencies\<close> and \<open>process_novel\<close>\<close>

text \<open>
  \<open>word_tokenize\<close> is nltk's; the model takes it as the parameter \<open>word_tokenize\<close>, a total
  function from the text to its tokens.
\<close>

type_synonym tokenizer = "string \<Rightarrow> string list"

definition count_word_frequencies :: "tokenizer \<Rightarrow> string \<Rightarrow> string list \<Rightarrow> (string \<rightharpoonup> nat)" where
  "count_word_frequencies word_tokenize text target_words =
     (let words = word_tokenize text;
          normalized_words = map normalize_word (filter isalpha words);
          word_counts = Counter normalized_words;
          filtered_counts =
            fold (\<lambda>word d. d(word \<mapsto> dict_get word_counts word 0)) target_words Map.empty
      in filtered_counts)"

text \<open>
  Reading a file either raises (\<open>Inl\<close> the exception's message) or yields the whole text.
  The file system is the parameter \<open>read_file\<close>. \<open>process_novel\<close> returns the lines it
  printed together with its result.
\<close>

type_synonym file_reader = "string \<Rightarrow> string + string"

definition process_novel ::
    "tokenizer \<Rightarrow> file_reader \<Rightarrow> string \<Rightarrow> string list \<Rightarrow> string list \<times> (string \<rightharpoonup> nat)" where
  "process_novel word_tokenize read_file file_path target_words =
     (case read_file file_path of
        Inl e \<Rightarrow> ([''Error reading the file '' @ file_path @ '': '' @ e], Map.empty)
      | Inr text \<Rightarrow> ([], count_word_frequencies word_tokenize text target_words))"

subsection \<open>The frequency table\<close>

record frequency_record =
  Novel :: string
  Character :: string
  Frequency :: "nat option"

text \<open>
  \<open>pd.DataFrame(data)\<close> of a list of dictionaries has their keys as columns; of the empty
  list it has no columns at all, and every later access to a column raises \<open>KeyError\<close>.
\<close>

datatype dataframe = NoColumns | Frame "frequency_record list"

datatype error = KeyError string

fun rows :: "dataframe \<Rightarrow> frequency_record list" where
  "rows NoColumns = []"
| "rows (Frame rs) = rs"

definition pd_DataFrame :: "frequency_record list \<Rightarrow> dataframe" where
  "pd_DataFrame data = (if data = [] then NoColumns else Frame data)"

subsection \<open>\<open>prepare_plot_data\<close>\<close>

text \<open>The inner loop: the records that one novel appends to \<open>data\<close>.\<close>

definition novel_records :: "string \<Rightarrow> (string \<rightharpoonup> nat) \<Rightarrow> string list \<Rightarrow> frequency_record list" where
  "novel_records title frequencies target_words =
     map (\<lambda>character.
            let freq = dict_get frequencies character 0;
                freq = (if freq > 0 then Some freq else None)
            in \<lparr>Novel = title, Character = capitalize character, Frequency = freq\<rparr>)
         target_words"

text \<open>The outer loop over \<open>zip(novel_paths, novel_titles)\<close>: the printed lines and \<open>data\<close>.\<close>

fun prepare_plot_loop ::
    "tokenizer \<Rightarrow> file_reader \<Rightarrow> (string \<times> string) list \<Rightarrow> string list
       \<Rightarrow> string list \<times> frequency_record list" where
  "prepare_plot_loop word_tokenize read_file [] target_words = ([], [])"
| "prepare_plot_loop word_tokenize read_file ((path, title) # novels) target_words =
     (let (printed, frequencies) = process_novel word_tokenize read_file path target_words;
          (printed', data) = prepare_plot_loop word_tokenize read_file novels target_words
      in (printed @ printed', novel_records title frequencies target_words @ data))"

definition prepare_plot_data ::
    "tokenizer \<Rightarrow> file_reader \<Rightarrow> string list \<Rightarrow> string list \<Rightarrow> string list
       \<Rightarrow> string list \<times> dataframe" where
  "prepare_plot_data word_tokenize read_file novel_paths novel_titles target_words =
     (let (printed, data) =
            prepare_plot_loop word_tokenize read_file (zip novel_paths novel_titles) target_words
      in (printed, pd_DataFrame data))"

subsection \<open>Grouping and aggregation\<close>

text \<open>
  A pandas \<open>Series\<close> indexed by character name is the list of its (label, value) pairs.
  \<open>df.groupby('Character')['Frequency']\<close> has one group for every distinct character,
  the groups in ascending order of the name (\<open>sort=True\<close> is the default of \<open>groupby\<close>),
  each group holding the frequencies of the character's rows in the order of the table.
\<close>

type_synonym series = "(string \<times> nat option) list"

definition groupby_Character :: "frequency_record list \<Rightarrow> (string \<times> nat option list) list" where
  "groupby_Character rs =
     map (\<lambda>c. (c, map Frequency (filter (\<lambda>r. Character r = c) rs)))
         (sort (remdups (map Character rs)))"

text \<open>
  \<open>max()\<close> and \<open>min()\<close> skip NaN; over no present value at all the result is NaN, and so
  is every difference with NaN.
\<close>

definition present :: "nat option list \<Rightarrow> nat list" where
  "present x = map the (filter (\<lambda>v. v \<noteq> None) x)"

definition series_max :: "nat option list \<Rightarrow> nat option" where
  "series_max x = (case present x of [] \<Rightarrow> None | v # vs \<Rightarrow> Some (fold max vs v))"

definition series_min :: "nat option list \<Rightarrow> nat option" where
  "series_min x = (case present x of [] \<Rightarrow> None | v # vs \<Rightarrow> Some (fold min vs v))"

definition max_minus_min :: "nat option list \<Rightarrow> nat option" where
  "max_minus_min x =
     (case (series_max x, series_min x) of
        (Some a, Some b) \<Rightarrow> Some (a - b)
      | _ \<Rightarrow> None)"

definition calculate_change_in_frequency :: "dataframe \<Rightarrow> error + series" where
  "calculate_change_in_frequency df =
     (case df of
        NoColumns \<Rightarrow> Inl (KeyError ''Character'')
      | Frame rs \<Rightarrow> Inr (map (\<lambda>(c, x). (c, max_minus_min x)) (groupby_Character rs)))"

subsection \<open>Sorting a series, \<open>nlargest\<close>\<close>

text \<open>
  \<open>sort_values(ascending=False)\<close> sorts the present values in descending order and puts
  the NaN entries behind them, in the order they had. Equal values are taken in the order
  they had in the series, which is what pandas' sort does on short series; pandas does not
  promise an order between equal values for its default sort kind, and no statement below
  about \<open>order_characters_by_max_appearance\<close> relies on one.

  \<open>nlargest(n)\<close> (with \<open>keep='first'\<close>) returns nothing for \<open>n \<le> 0\<close>. Otherwise it
  takes the \<open>n\<close> largest present values by a stable sort of the negated values, equal values
  in the order of the series, and appends the NaN entries before cutting the result to
  \<open>n\<close> entries (\<open>concat([dropped.iloc[inds], nan_index]).iloc[:n]\<close> in the pandas 2
  sources; early releases of pandas dropped the NaN entries instead); for \<open>n\<close> not below
  the length of the series it is \<open>sort_values(ascending=False)\<close> cut to \<open>n\<close>, which has
  every entry. Both are the first \<open>n\<close> entries of the descending sort. The script reads
  only the labels of the result, through \<open>isin\<close>.
\<close>

definition sort_values_descending :: "series \<Rightarrow> series" where
  "sort_values_descending s =
     sort_key (\<lambda>(c, v). - int (the v)) (filter (\<lambda>(c, v). v \<noteq> None) s)
     @ filter (\<lambda>(c, v). v = None) s"

definition nlargest :: "int \<Rightarrow> series \<Rightarrow> series" where
  "nlargest n s = (if n \<le> 0 then [] else take (nat n) (sort_values_descending s))"

subsection \<open>\<open>filter_top_characters\<close> and \<open>order_characters_by_max_appearance\<close>\<close>

text \<open>The local \<open>top_characters\<close> of \<open>filter_top_characters\<close>, for a frame with columns.\<close>

definition top_characters :: "series \<Rightarrow> int \<Rightarrow> string list" where
  "top_characters max_min_diff top_n = map fst (nlargest top_n max_min_diff)"

definition filter_top_characters :: "dataframe \<Rightarrow> int \<Rightarrow> error + dataframe" where
  "filter_top_characters df top_n =
     (case calculate_change_in_frequency df of
        Inl e \<Rightarrow> Inl e
      | Inr max_min_diff \<Rightarrow>
          let filtered_df =
                Frame (filter (\<lambda>r. Character r \<in> set (top_characters max_min_diff top_n)) (rows df))
          in Inr filtered_df)"

text \<open>
  \<open>set_index('Character').loc[sorted_characters].reset_index()\<close> lists, for every label of
  \<open>sorted_characters\<close> in turn, the rows of that character in the order they had.
\<close>

definition sorted_characters :: "frequency_record list \<Rightarrow> string list" where
  "sorted_characters rs =
     (let max_appearance = map (\<lambda>(c, x). (c, series_max x)) (groupby_Character rs)
      in map fst (sort_values_descending max_appearance))"

definition order_characters_by_max_appearance :: "dataframe \<Rightarrow> error + dataframe" where
  "order_characters_by_max_appearance filtered_df =
     (case filtered_df of
        NoColumns \<Rightarrow> Inl (KeyError ''Character'')
      | Frame rs \<Rightarrow>
          let ordered_df =
                Frame (concat (map (\<lambda>c. filter (\<lambda>r. Character r = c) rs) (sorted_characters rs)))
          in Inr ordered_df)"

subsection \<open>\<open>plot_character_frequencies\<close>\<close>


subsection \<open>Notions of the specification\<close>

text \<open>
  The variant of \<open>count_word_frequencies\<close> that only lowercases the alphabetic tokens it
  keeps, without the possessive step.
\<close>

definition count_word_frequencies_lower_only ::
    "tokenizer \<Rightarrow> string \<Rightarrow> string list \<Rightarrow> (string \<rightharpoonup> nat)" where
  "count_word_frequencies_lower_only word_tokenize text target_words =
     (let words = word_tokenize text;
          lowered_words = map lower (filter isalpha words);
          word_counts = Counter lowered_words;
          filtered_counts =
            fold (\<lambda>word d. d(word \<mapsto> dict_get word_counts word 0)) target_words Map.empty
      in filtered_counts)"

text \<open>
  The number of times a vocabulary word occurs in a text: the alphabetic tokens that
  normalize to it.
\<close>

definition occurrences :: "tokenizer \<Rightarrow> string \<Rightarrow> string \<Rightarrow> nat" where
  "occurrences word_tokenize text word =
     count_list (map normalize_word (filter isalpha (word_tokenize text))) word"

text \<open>
  The count of a vocabulary word in the novel at a path, as \<open>prepare_plot_data\<close> looks it
  up: a novel that cannot be read counts 0 for every word.
\<close>

definition novel_count :: "tokenizer \<Rightarrow> file_reader \<Rightarrow> string \<Rightarrow> string \<Rightarrow> nat" where
  "novel_count word_tokenize read_file path word =
     (case read_file path of
        Inl e \<Rightarrow> 0
      | Inr text \<Rightarrow> occurrences word_tokenize text word)"

text \<open>
  The present frequencies of a character in a table, its spread (maximum minus minimum of
  the present frequencies, undefined when there is none) and its maximum.
\<close>

definition present_values :: "frequency_record list \<Rightarrow> string \<Rightarrow> nat list" where
  "present_values rs c =
     map (the \<circ> Frequency) (filter (\<lambda>r. Character r = c \<and> Frequency r \<noteq> None) rs)"

definition spread :: "frequency_record list \<Rightarrow> string \<Rightarrow> nat option" where
  "spread rs c =
     (let vs = present_values rs c
      in if vs = [] then None else Some (Max (set vs) - Min (set vs)))"

definition max_present :: "frequency_record list \<Rightarrow> string \<Rightarrow> nat option" where
  "max_present rs c =
     (let vs = present_values rs c in if vs = [] then None else Some (Max (set vs)))"

definition characters :: "frequency_record list \<Rightarrow> string set" where
  "characters rs = Character ` set rs"

text \<open>
  The ranking behind the selection, on (name, value) entries: a larger value first, of two
  equal values the smaller name first, an undefined value behind every defined one.
\<close>

definition ranks_before :: "string \<times> nat option \<Rightarrow> string \<times> nat option \<Rightarrow> bool" where
  "ranks_before a b =
     (case (snd a, snd b) of
        (Some x, Some y) \<Rightarrow> y < x \<or> (x = y \<and> fst a < fst b)
      | (Some x, None) \<Rightarrow> True
      | (None, Some y) \<Rightarrow> False
      | (None, None) \<Rightarrow> fst a < fst b)"

text \<open>Values in descending order with ties allowed, undefined values last.\<close>

definition not_below :: "nat option \<Rightarrow> nat option \<Rightarrow> bool" where
  "not_below a b =
     (case (a, b) of
        (Some x, Some y) \<Rightarrow> y \<le> x
      | (None, Some y) \<Rightarrow> False
      | _ \<Rightarrow> True)"

text \<open>Values in strictly descending order.\<close>

definition strictly_above :: "nat option \<Rightarrow> nat option \<Rightarrow> bool" where
  "strictly_above a b = (case (a, b) of (Some x, Some y) \<Rightarrow> y < x | _ \<Rightarrow> False)"

text \<open>The characters that \<open>filter_top_characters\<close> selects from the rows of a frame.\<close>

definition selected_characters :: "frequency_record list \<Rightarrow> int \<Rightarrow> string list" where
  "selected_characters rs top_n =
     (case calculate_change_in_frequency (Frame rs) of
        Inl e \<Rightarrow> []
      | Inr max_min_diff \<Rightarrow> top_characters max_min_diff top_n)"

text \<open>
  The selection with ties broken by the order of the table: the characters in the order of
  their first rows, sorted stably by descending spread, cut to \<open>top_n\<close>.
\<close>

definition first_appearances :: "'a list \<Rightarrow> 'a list" where
  "first_appearances xs = rev (remdups (rev xs))"

definition top_by_table_order :: "frequency_record list \<Rightarrow> int \<Rightarrow> string list" where
  "top_by_table_order rs top_n =
     take (nat top_n)
       (sort_key (\<lambda>c. - int (the (spread rs c)))
          (filter (\<lambda>c. spread rs c \<noteq> None) (first_appearances (map Character rs))))"

subsection \<open>Example inputs\<close>

text \<open>
  A small tokenizer with the conventions of \<open>word_tokenize\<close> that the example texts need:
  tokens are separated by spaces, a final period is a token of its own, and so is the
  clitic \<open>'s\<close>.
\<close>

fun split_spaces :: "string \<Rightarrow> string \<Rightarrow> string list" where
  "split_spaces cur [] = (if cur = [] then [] else [cur])"
| "split_spaces cur (c # cs) =
     (if c = CHR '' '' then (if cur = [] then split_spaces [] cs else cur # split_spaces [] cs)
      else split_spaces (cur @ [c]) cs)"

definition detach_clitic :: "string \<Rightarrow> string list" where
  "detach_clitic w =
     (let n = length w
      in if 2 < n \<and> drop (n - 2) w = [CHR 0x27, CHR ''s'']
         then [take (n - 2) w, [CHR 0x27, CHR ''s'']] else [w])"

definition detach_period :: "string \<Rightarrow> string list" where
  "detach_period w =
     (if 1 < length w \<and> last w = CHR ''.'' then detach_clitic (butlast w) @ [''.'']
      else detach_clitic w)"

definition simple_tokenize :: tokenizer where
  "simple_tokenize text = concat (map detach_period (split_spaces [] text))"

definition novel1_text :: string where
  "novel1_text = ''Harry ran. Harry's wand glowed.''"

definition novel2_text :: string where
  "novel2_text = ''Ron and Harry talked.''"

text \<open>A file system with the two example novels and nothing else.\<close>

definition example_files :: file_reader where
  "example_files path =
     (if path = ''novel1.txt'' then Inr novel1_text
      else if path = ''novel2.txt'' then Inr novel2_text
      else Inl ''No such file or directory'')"

definition row :: "string \<Rightarrow> string \<Rightarrow> nat option \<Rightarrow> frequency_record" where
  "row novel character frequency =
     \<lparr>Novel = novel, Character = character, Frequency = frequency\<rparr>"

text \<open>
  Two novels and three characters, in the order Ron, Harry, Albus; the spreads are 10, 10
  and 5.
\<close>

definition tied_spreads_table :: "frequency_record list" where
  "tied_spreads_table =
     [row ''n1'' ''Ron'' (Some 1), row ''n1'' ''Harry'' (Some 11), row ''n1'' ''Albus'' (Some 1),
      row ''n2'' ''Ron'' (Some 11), row ''n2'' ''Harry'' (Some 1), row ''n2'' ''Albus'' (Some 6)]"

text \<open>Two characters with the same maximum.\<close>

definition tied_maxima_table :: "frequency_record list" where
  "tied_maxima_table =
     [row ''n1'' ''Harry'' (Some 3), row ''n1'' ''Ron'' (Some 2),
      row ''n2'' ''Harry'' (Some 1), row ''n2'' ''Ron'' (Some 3)]"

text \<open>Two novels; Ron occurs in neither, Albus only in the first.\<close>

definition absent_character_table :: "frequency_record list" where
  "absent_character_table =
     [row ''n1'' ''Harry'' (Some 2), row ''n1'' ''Ron'' None, row ''n1'' ''Albus'' (Some 4),
      row ''n2'' ''Harry'' (Some 5), row ''n2'' ''Ron'' None, row ''n2'' ''Albus'' None]"


section \<open>Properties\<close>

subsection \<open>Strings, counting and the shape of the table\<close>

lemmas char_tables =
  lower_char_def upper_char_def isalpha_char_def ascii_uppercase_def ascii_lowercase_def



lemma not_isalpha_apostrophe: "\<not> isalpha_char (CHR 0x27)"
  by (simp add: char_tables)

lemma re_sub_possessive_alpha:
  "list_all isalpha_char w \<Longrightarrow> re_sub_possessive w = w"
proof (induction w rule: re_sub_possessive.induct)
  case (1 c1 c2 rest)
  from "1.prems" have "c1 \<noteq> CHR 0x27"
    using not_isalpha_apostrophe by auto
  with 1 show ?case by simp
qed simp_all

lemma isalpha_no_apostrophe: "isalpha w \<Longrightarrow> CHR 0x27 \<notin> set w"
  using not_isalpha_apostrophe by (auto simp: isalpha_def list_all_iff)

lemma normalize_word_alpha: "isalpha w \<Longrightarrow> normalize_word w = lower w"
  by (simp add: normalize_word_def isalpha_def re_sub_possessive_alpha)

lemma dict_get_fold_Counter:
  "dict_get (fold (\<lambda>e c. c(e \<mapsto> dict_get c e 0 + 1)) xs c) w 0 = dict_get c w 0 + count_list xs w"
  by (induction xs arbitrary: c) (simp_all add: dict_get_def)

lemma dict_get_Counter: "dict_get (Counter xs) w 0 = count_list xs w"
proof -
  have "dict_get (Map.empty :: 'a \<rightharpoonup> nat) w 0 = 0"
    by (simp add: dict_get_def)
  then show ?thesis
    unfolding Counter_def by (simp only: dict_get_fold_Counter)
qed

lemma fold_upd_lookup:
  "fold (\<lambda>word d. d(word \<mapsto> f word)) ws d0 w = (if w \<in> set ws then Some (f w) else d0 w)"
  by (induction ws arbitrary: d0) auto

lemma count_word_frequencies_lookup:
  "count_word_frequencies tok text ws w =
     (if w \<in> set ws
      then Some (count_list (map normalize_word (filter isalpha (tok text))) w)
      else None)"
  by (simp add: count_word_frequencies_def Let_def fold_upd_lookup dict_get_Counter)

lemma normalized_eq_lowered:
  "map normalize_word (filter isalpha ws) = map lower (filter isalpha ws)"
  by (simp add: normalize_word_alpha)

lemma fst_prepare_plot_loop:
  "fst (prepare_plot_loop tok rf novels ws) =
     concat (map (\<lambda>(p, t). fst (process_novel tok rf p ws)) novels)"
  by (induction novels) (auto split: prod.splits)

lemma snd_prepare_plot_loop:
  "snd (prepare_plot_loop tok rf novels ws) =
     concat (map (\<lambda>(p, t). novel_records t (snd (process_novel tok rf p ws)) ws) novels)"
  by (induction novels) (auto split: prod.splits)

lemma rows_pd_DataFrame: "rows (pd_DataFrame data) = data"
  by (simp add: pd_DataFrame_def)

lemma rows_prepare_plot_data:
  "rows (snd (prepare_plot_data tok rf ps ts ws)) =
     concat (map (\<lambda>(p, t). novel_records t (snd (process_novel tok rf p ws)) ws) (zip ps ts))"
  by (simp add: prepare_plot_data_def rows_pd_DataFrame snd_prepare_plot_loop[symmetric]
      split: prod.splits)

lemma printed_prepare_plot_data:
  "fst (prepare_plot_data tok rf ps ts ws) =
     concat (map (\<lambda>(p, t). fst (process_novel tok rf p ws)) (zip ps ts))"
  by (simp add: prepare_plot_data_def fst_prepare_plot_loop[symmetric] split: prod.splits)

lemma length_novel_records: "length (novel_records t d ws) = length ws"
  by (simp add: novel_records_def)

lemma length_concat_blocks:
  "\<forall>x \<in> set xs. length (f x) = m \<Longrightarrow> length (concat (map f xs)) = length xs * m"
  by (induction xs) simp_all

lemma nth_concat_blocks:
  "\<forall>x \<in> set xs. length (f x) = m \<Longrightarrow> i < length xs \<Longrightarrow> j < m
     \<Longrightarrow> concat (map f xs) ! (i * m + j) = f (xs ! i) ! j"
proof (induction xs arbitrary: i)
  case Nil
  then show ?case by simp
next
  case (Cons x xs)
  show ?case
  proof (cases i)
    case 0
    with Cons.prems show ?thesis by (simp add: nth_append)
  next
    case (Suc i')
    with Cons.prems have "concat (map f xs) ! (i' * m + j) = f (xs ! i') ! j"
      by (intro Cons.IH) auto
    with Suc Cons.prems show ?thesis by (simp add: nth_append add.assoc)
  qed
qed

lemma block_concat_blocks:
  "\<forall>x \<in> set xs. length (f x) = m \<Longrightarrow> i < length xs
     \<Longrightarrow> take m (drop (i * m) (concat (map f xs))) = f (xs ! i)"
proof (induction xs arbitrary: i)
  case Nil
  then show ?case by simp
next
  case (Cons x xs)
  show ?case
  proof (cases i)
    case 0
    with Cons.prems show ?thesis by simp
  next
    case (Suc i')
    with Cons.prems have "take m (drop (i' * m) (concat (map f xs))) = f (xs ! i')"
      by (intro Cons.IH) auto
    with Suc Cons.prems show ?thesis by simp
  qed
qed

lemma simple_tokenize_novel1:
  "simple_tokenize novel1_text =
     [''Harry'', ''ran'', ''.'', ''Harry'', '''s'', ''wand'', ''glowed'', ''.'']"
  by (simp add: simple_tokenize_def novel1_text_def detach_period_def detach_clitic_def)

lemma simple_tokenize_novel2:
  "simple_tokenize novel2_text = [''Ron'', ''and'', ''Harry'', ''talked'', ''.'']"
  by (simp add: simple_tokenize_def novel2_text_def detach_period_def detach_clitic_def)

lemma isalpha_simps:
  "isalpha ''Harry''" "isalpha ''ran''" "\<not> isalpha ''.''" "\<not> isalpha '''s''"
  "isalpha ''wand''" "isalpha ''glowed''" "isalpha ''Ron''" "isalpha ''and''" "isalpha ''talked''"
  by (simp_all add: isalpha_def char_tables)

lemma normalize_simps:
  "normalize_word ''Harry'' = ''harry''" "normalize_word ''ran'' = ''ran''"
  "normalize_word ''wand'' = ''wand''" "normalize_word ''glowed'' = ''glowed''"
  "normalize_word ''Ron'' = ''ron''" "normalize_word ''and'' = ''and''"
  "normalize_word ''talked'' = ''talked''"
  by (simp_all add: normalize_word_def lower_def char_tables)

subsection \<open>Possessive normalization\<close>



text \<open>
  Claim C10. Every token that \<open>count_word_frequencies\<close> counts is alphabetic, so it holds no
  apostrophe and the possessive step of \<open>normalize_word\<close> leaves it as it is:
  \<open>count_word_frequencies\<close> equals the variant that only lowercases the alphabetic tokens.
\<close>

theorem possessive_strip_is_identity_on_counted_tokens:
  "(\<forall>w \<in> set (filter isalpha (word_tokenize text)).
       CHR 0x27 \<notin> set w \<and> re_sub_possessive w = w \<and> normalize_word w = lower w)
   \<and> count_word_frequencies word_tokenize text target_words
       = count_word_frequencies_lower_only word_tokenize text target_words"
proof -
  have "\<forall>w \<in> set (filter isalpha (word_tokenize text)).
       CHR 0x27 \<notin> set w \<and> re_sub_possessive w = w \<and> normalize_word w = lower w"
    by (simp add: isalpha_no_apostrophe normalize_word_alpha)
       (simp add: isalpha_def re_sub_possessive_alpha)
  moreover have "count_word_frequencies word_tokenize text target_words
       = count_word_frequencies_lower_only word_tokenize text target_words"
    by (simp add: count_word_frequencies_def count_word_frequencies_lower_only_def
        normalized_eq_lowered)
  ultimately show ?thesis by blast
qed

theorem possessive_strip_is_identity_on_counted_tokens_witness:
  "''Harry'' \<in> set (filter isalpha (simple_tokenize novel1_text))
   \<and> CHR 0x27 \<notin> set ''Harry'' \<and> re_sub_possessive ''Harry'' = ''Harry''
   \<and> normalize_word ''Harry'' = lower ''Harry''
   \<and> count_word_frequencies simple_tokenize novel1_text [''harry'', ''ron'']
       = count_word_frequencies_lower_only simple_tokenize novel1_text [''harry'', ''ron'']"
  using possessive_strip_is_identity_on_counted_tokens
          [of simple_tokenize novel1_text "[''harry'', ''ron'']"]
  by (simp add: simple_tokenize_novel1 isalpha_simps)

subsection \<open>The end-to-end example\<close>

text \<open>
  Claim C3. Let the two novels hold the texts \<open>Harry ran. Harry's wand glowed.\<close> and
  \<open>Ron and Harry talked.\<close>, which \<open>word_tokenize\<close> splits into
  \<open>Harry, ran, ., Harry, 's, wand, glowed, .\<close> and \<open>Ron, and, Harry, talked, .\<close>. With the
  vocabulary \<open>harry, ron\<close>, \<open>prepare_plot_data\<close> prints nothing and returns the four records
  (novel1, Harry, 2), (novel1, Ron, absent), (novel2, Harry, 1), (novel2, Ron, 1), in this
  order.
\<close>

theorem end_to_end_example:
  assumes "read_file path1 = Inr ''Harry ran. Harry's wand glowed.''"
      and "read_file path2 = Inr ''Ron and Harry talked.''"
      and "word_tokenize ''Harry ran. Harry's wand glowed.'' =
             [''Harry'', ''ran'', ''.'', ''Harry'', '''s'', ''wand'', ''glowed'', ''.'']"
      and "word_tokenize ''Ron and Harry talked.'' = [''Ron'', ''and'', ''Harry'', ''talked'', ''.'']"
  shows "prepare_plot_data word_tokenize read_file [path1, path2] [''novel1'', ''novel2'']
           [''harry'', ''ron'']
         = ([], Frame [row ''novel1'' ''Harry'' (Some 2), row ''novel1'' ''Ron'' None,
                       row ''novel2'' ''Harry'' (Some 1), row ''novel2'' ''Ron'' (Some 1)])"
proof -
  have r1: "novel_records ''novel1''
        (count_word_frequencies word_tokenize ''Harry ran. Harry's wand glowed.'' [''harry'', ''ron''])
        [''harry'', ''ron'']
      = [row ''novel1'' ''Harry'' (Some 2), row ''novel1'' ''Ron'' None]"
    by (simp add: novel_records_def dict_get_def count_word_frequencies_lookup assms(3)
        isalpha_simps normalize_simps row_def lower_def char_tables)
  have r2: "novel_records ''novel2''
        (count_word_frequencies word_tokenize ''Ron and Harry talked.'' [''harry'', ''ron''])
        [''harry'', ''ron'']
      = [row ''novel2'' ''Harry'' (Some 1), row ''novel2'' ''Ron'' (Some 1)]"
    by (simp add: novel_records_def dict_get_def count_word_frequencies_lookup assms(4)
        isalpha_simps normalize_simps row_def lower_def char_tables)
  show ?thesis
    by (simp add: prepare_plot_data_def process_novel_def assms(1,2) r1 r2 pd_DataFrame_def)
qed

theorem end_to_end_example_witness:
  "prepare_plot_data simple_tokenize example_files [''novel1.txt'', ''novel2.txt'']
       [''novel1'', ''novel2''] [''harry'', ''ron'']
     = ([], Frame [row ''novel1'' ''Harry'' (Some 2), row ''novel1'' ''Ron'' None,
                   row ''novel2'' ''Harry'' (Some 1), row ''novel2'' ''Ron'' (Some 1)])"
proof -
  have f1: "example_files ''novel1.txt'' = Inr ''Harry ran. Harry's wand glowed.''"
    by (simp add: example_files_def novel1_text_def)
  have f2: "example_files ''novel2.txt'' = Inr ''Ron and Harry talked.''"
    by (simp add: example_files_def novel2_text_def)
  show ?thesis
    using end_to_end_example [of example_files "''novel1.txt''" "''novel2.txt''" simple_tokenize]
      f1 f2 simple_tokenize_novel1 simple_tokenize_novel2
    by (simp add: novel1_text_def novel2_text_def)
qed

subsection \<open>Sorting, ranking and selection\<close>

lemma sorted_wrt_insort_key_stable:
  fixes f :: "'a \<Rightarrow> 'k::linorder" and g :: "'a \<Rightarrow> 'n::order"
  assumes "sorted_wrt (\<lambda>a b. f a < f b \<or> (f a = f b \<and> g a < g b)) ys"
      and "\<forall>y \<in> set ys. g x < g y"
  shows "sorted_wrt (\<lambda>a b. f a < f b \<or> (f a = f b \<and> g a < g b)) (insort_key f x ys)"
  using assms
proof (induction ys)
  case Nil
  then show ?case by simp
next
  case (Cons y ys)
  show ?case
  proof (cases "f x \<le> f y")
    case True
    have "f x < f z \<or> (f x = f z \<and> g x < g z)" if "z \<in> set (y # ys)" for z
    proof -
      have "f y \<le> f z" using that Cons.prems(1) by auto
      with True have "f x \<le> f z" by simp
      moreover have "g x < g z" using that Cons.prems(2) by auto
      ultimately show ?thesis by auto
    qed
    with True Cons.prems(1) show ?thesis by simp
  next
    case False
    then have "f y < f x" by simp
    moreover have "sorted_wrt (\<lambda>a b. f a < f b \<or> (f a = f b \<and> g a < g b)) (insort_key f x ys)"
      using Cons by simp
    ultimately show ?thesis using False Cons.prems(1) by (auto simp: set_insort_key)
  qed
qed

lemma sorted_wrt_sort_key_stable:
  fixes f :: "'a \<Rightarrow> 'k::linorder" and g :: "'a \<Rightarrow> 'n::order"
  assumes "sorted_wrt (\<lambda>a b. g a < g b) xs"
  shows "sorted_wrt (\<lambda>a b. f a < f b \<or> (f a = f b \<and> g a < g b)) (sort_key f xs)"
  using assms
proof (induction xs)
  case Nil
  then show ?case by simp
next
  case (Cons x xs)
  then have "sorted_wrt (\<lambda>a b. f a < f b \<or> (f a = f b \<and> g a < g b)) (sort_key f xs)"
    by simp
  moreover have "\<forall>y \<in> set (sort_key f xs). g x < g y"
    using Cons.prems by simp
  ultimately show ?case
    by (simp add: sorted_wrt_insort_key_stable)
qed

lemma mset_sort_values_descending: "mset (sort_values_descending s) = mset s"
proof -
  have "(\<lambda>(c, v). v = None) = (\<lambda>x. \<not> (case x of (c, v) \<Rightarrow> v \<noteq> None))"
    by auto
  then show ?thesis
    by (simp add: sort_values_descending_def)
qed

lemma set_sort_values_descending: "set (sort_values_descending s) = set s"
  using mset_sort_values_descending [of s] by (metis set_mset_mset)

lemma length_sort_values_descending: "length (sort_values_descending s) = length s"
  using mset_sort_values_descending [of s] by (metis size_mset)

lemma distinct_fst_sort_values_descending:
  "distinct (map fst s) \<Longrightarrow> distinct (map fst (sort_values_descending s))"
proof -
  assume "distinct (map fst s)"
  moreover have "mset (map fst (sort_values_descending s)) = mset (map fst s)"
    by (simp add: mset_sort_values_descending)
  ultimately show ?thesis by (metis distinct_count_atmost_1 set_mset_mset)
qed

lemma sorted_wrt_sort_values_descending:
  assumes "sorted_wrt (\<lambda>a b. fst a < fst b) s"
  shows "sorted_wrt ranks_before (sort_values_descending s)"
proof -
  let ?f = "\<lambda>(c :: string, v :: nat option). - int (the v)"
  let ?A = "filter (\<lambda>(c, v). v \<noteq> None) s"
  let ?B = "filter (\<lambda>(c, v). v = None) s"
  have A: "sorted_wrt (\<lambda>a b. fst a < fst b) ?A" and B: "sorted_wrt (\<lambda>a b. fst a < fst b) ?B"
    using assms by (simp_all add: sorted_wrt_filter)
  have "sorted_wrt (\<lambda>a b. ?f a < ?f b \<or> (?f a = ?f b \<and> fst a < fst b)) (sort_key ?f ?A)"
    using A by (rule sorted_wrt_sort_key_stable)
  then have 1: "sorted_wrt ranks_before (sort_key ?f ?A)"
    by (rule sorted_wrt_mono_rel [rotated]) (auto simp: ranks_before_def)
  have 2: "sorted_wrt ranks_before ?B"
    using B by (rule sorted_wrt_mono_rel [rotated]) (auto simp: ranks_before_def)
  have 3: "\<forall>a \<in> set (sort_key ?f ?A). \<forall>b \<in> set ?B. ranks_before a b"
    by (auto simp: ranks_before_def)
  show ?thesis
    unfolding sort_values_descending_def using 1 2 3 by (simp add: sorted_wrt_append)
qed

lemma sorted_wrt_take_drop:
  "sorted_wrt P xs \<Longrightarrow> a \<in> set (take n xs) \<Longrightarrow> b \<in> set (drop n xs) \<Longrightarrow> P a b"
proof -
  assume "sorted_wrt P xs" "a \<in> set (take n xs)" "b \<in> set (drop n xs)"
  moreover have "xs = take n xs @ drop n xs" by simp
  ultimately show "P a b" by (metis sorted_wrt_append)
qed


lemma fst_groupby_Character:
  "map fst (groupby_Character rs) = sort (remdups (map Character rs))"
  by (simp add: groupby_Character_def comp_def)

lemma strict_sorted_keys: "sorted_wrt (<) (sort (remdups (map Character rs)))"
  by (simp add: strict_sorted_iff)

lemma set_keys: "set (sort (remdups (map Character rs))) = characters rs"
  by (simp add: characters_def)

lemma length_keys: "length (sort (remdups (map Character rs))) = card (characters rs)"
  by (simp add: characters_def length_remdups_card_conv)

lemma present_group:
  "present (map Frequency (filter (\<lambda>r. Character r = c) rs)) = present_values rs c"
  by (induction rs) (simp_all add: present_def present_values_def)

lemma series_max_Max:
  "series_max x = (if present x = [] then None else Some (Max (set (present x))))"
  by (cases "present x") (simp_all add: series_max_def Max.set_eq_fold [symmetric])

lemma series_min_Min:
  "series_min x = (if present x = [] then None else Some (Min (set (present x))))"
  by (cases "present x") (simp_all add: series_min_def Min.set_eq_fold [symmetric])

lemma max_minus_min_group:
  "max_minus_min (map Frequency (filter (\<lambda>r. Character r = c) rs)) = spread rs c"
  by (simp add: max_minus_min_def series_max_Max series_min_Min present_group spread_def Let_def)

lemma series_max_group:
  "series_max (map Frequency (filter (\<lambda>r. Character r = c) rs)) = max_present rs c"
  by (simp add: series_max_Max present_group max_present_def Let_def)

lemma calculate_change_in_frequency_Frame:
  "calculate_change_in_frequency (Frame rs) =
     Inr (map (\<lambda>c. (c, spread rs c)) (sort (remdups (map Character rs))))"
  by (simp add: calculate_change_in_frequency_def groupby_Character_def comp_def
      max_minus_min_group)

lemma strict_sorted_series:
  "sorted_wrt (\<lambda>a b. fst a < fst b) (map (\<lambda>c. (c, f c)) (sort (remdups (map Character rs))))"
  using strict_sorted_keys [of rs] by (simp add: sorted_wrt_map)

lemma selected_characters_eq:
  "selected_characters rs n =
     (if n \<le> 0 then []
      else map fst (take (nat n) (sort_values_descending
             (map (\<lambda>c. (c, spread rs c)) (sort (remdups (map Character rs)))))))"
  by (simp add: selected_characters_def calculate_change_in_frequency_Frame top_characters_def
      nlargest_def)

lemma filter_top_characters_Frame:
  "filter_top_characters (Frame rs) n =
     Inr (Frame (filter (\<lambda>r. Character r \<in> set (selected_characters rs n)) rs))"
  by (simp add: filter_top_characters_def selected_characters_def
      calculate_change_in_frequency_Frame)

lemma distinct_selected_characters: "distinct (selected_characters rs n)"
proof -
  let ?L = "sort_values_descending (map (\<lambda>c. (c, spread rs c)) (sort (remdups (map Character rs))))"
  have "distinct (map fst ?L)"
    by (rule distinct_fst_sort_values_descending) (simp add: comp_def)
  then have "distinct (take (nat n) (map fst ?L))" by (rule distinct_take)
  then show ?thesis by (simp add: selected_characters_eq take_map)
qed

lemma set_selected_characters: "set (selected_characters rs n) \<subseteq> characters rs"
proof -
  let ?s = "map (\<lambda>c. (c, spread rs c)) (sort (remdups (map Character rs)))"
  have "set (take (nat n) (sort_values_descending ?s)) \<subseteq> set ?s"
    using set_take_subset [of "nat n" "sort_values_descending ?s"]
    by (simp only: set_sort_values_descending)
  then have "fst ` set (take (nat n) (sort_values_descending ?s)) \<subseteq> fst ` set ?s"
    by (rule image_mono)
  moreover have "fst ` set ?s = characters rs"
    by (simp add: image_image characters_def)
  ultimately show ?thesis by (simp add: selected_characters_eq)
qed

lemma length_selected_characters:
  "length (selected_characters rs n) = min (nat n) (card (characters rs))"
  by (simp add: selected_characters_eq length_sort_values_descending length_keys
      min.commute del: length_sort)

lemma selected_characters_ranking:
  assumes "c \<in> set (selected_characters rs n)"
      and "c' \<in> characters rs" and "c' \<notin> set (selected_characters rs n)"
  shows "ranks_before (c, spread rs c) (c', spread rs c')"
proof -
  let ?s = "map (\<lambda>c. (c, spread rs c)) (sort (remdups (map Character rs)))"
  let ?L = "sort_values_descending ?s"
  from assms(1) have pos: "0 < n" and sel: "selected_characters rs n = map fst (take (nat n) ?L)"
    by (auto simp: selected_characters_eq split: if_splits)
  have entries: "a = (fst a, spread rs (fst a))" if "a \<in> set ?L" for a
    using that by (auto simp: set_sort_values_descending)
  from assms(1) sel obtain a where a: "a \<in> set (take (nat n) ?L)" "fst a = c"
    by auto
  then have "a \<in> set ?L" by (meson in_set_takeD)
  with a entries have a_eq: "a = (c, spread rs c)" by metis
  have "(c', spread rs c') \<in> set ?s"
    using assms(2) by (auto simp: characters_def)
  then have "(c', spread rs c') \<in> set ?L"
    by (simp only: set_sort_values_descending)
  then have "(c', spread rs c') \<in> set (take (nat n) ?L) \<union> set (drop (nat n) ?L)"
    by (metis append_take_drop_id set_append)
  moreover have "(c', spread rs c') \<notin> set (take (nat n) ?L)"
    using assms(3) sel by force
  ultimately have b: "(c', spread rs c') \<in> set (drop (nat n) ?L)" by blast
  have "sorted_wrt ranks_before ?L"
    by (rule sorted_wrt_sort_values_descending) (rule strict_sorted_series)
  from sorted_wrt_take_drop [OF this a(1) b] a_eq show ?thesis by simp
qed

lemmas table_defs = tied_spreads_table_def tied_maxima_table_def absent_character_table_def row_def

lemma keys_tied_spreads:
  "sort (remdups (map Character tied_spreads_table)) = [''Albus'', ''Harry'', ''Ron'']"
  by (simp add: table_defs)

lemma spread_tied_spreads:
  "spread tied_spreads_table ''Ron'' = Some 10"
  "spread tied_spreads_table ''Harry'' = Some 10"
  "spread tied_spreads_table ''Albus'' = Some 5"
  by (simp_all add: spread_def present_values_def table_defs)

lemma selected_tied_spreads: "selected_characters tied_spreads_table 1 = [''Harry'']"
  by (simp add: selected_characters_eq keys_tied_spreads spread_tied_spreads
      sort_values_descending_def)

lemma top_by_table_order_tied_spreads: "top_by_table_order tied_spreads_table 1 = [''Ron'']"
proof -
  have "first_appearances (map Character tied_spreads_table) = [''Ron'', ''Harry'', ''Albus'']"
    by (simp add: first_appearances_def table_defs)
  then show ?thesis
    by (simp add: top_by_table_order_def spread_tied_spreads)
qed

subsection \<open>Top-N selection\<close>

text \<open>
  Claim C1, as amended. \<open>filter_top_characters\<close> keeps the rows of the selected characters.
  As many characters are selected as \<open>top_n\<close> asks for, or all of them when the table has
  fewer (none for \<open>top_n \<le> 0\<close>), and every selected character ranks before every character
  left out: it has the larger spread, or the same spread and the smaller name, since the
  groups are sorted by character name before the largest values are taken; characters
  without a present value rank last. The position of a character in the table plays no role.
\<close>

theorem filter_top_characters_ranking:
  "filter_top_characters (Frame rs) n =
     Inr (Frame (filter (\<lambda>r. Character r \<in> set (selected_characters rs n)) rs))
   \<and> distinct (selected_characters rs n)
   \<and> set (selected_characters rs n) \<subseteq> characters rs
   \<and> length (selected_characters rs n) = min (nat n) (card (characters rs))
   \<and> (\<forall>c \<in> set (selected_characters rs n). \<forall>c' \<in> characters rs - set (selected_characters rs n).
         ranks_before (c, spread rs c) (c', spread rs c'))"
  using selected_characters_ranking [of _ rs n]
  by (simp add: filter_top_characters_Frame distinct_selected_characters
      set_selected_characters length_selected_characters)

theorem filter_top_characters_ranking_witness:
  "filter_top_characters (Frame tied_spreads_table) 1 =
     Inr (Frame [row ''n1'' ''Harry'' (Some 11), row ''n2'' ''Harry'' (Some 1)])
   \<and> selected_characters tied_spreads_table 1 = [''Harry'']
   \<and> ''Ron'' \<in> characters tied_spreads_table - set (selected_characters tied_spreads_table 1)
   \<and> ranks_before (''Harry'', spread tied_spreads_table ''Harry'')
        (''Ron'', spread tied_spreads_table ''Ron'')"
proof -
  have "''Ron'' \<in> characters tied_spreads_table"
    by (simp add: characters_def table_defs)
  moreover have "filter (\<lambda>r. Character r \<in> set [''Harry'']) tied_spreads_table
      = [row ''n1'' ''Harry'' (Some 11), row ''n2'' ''Harry'' (Some 1)]"
    by (simp add: table_defs)
  ultimately show ?thesis
    using filter_top_characters_ranking [of tied_spreads_table 1]
    by (simp add: selected_tied_spreads)
qed

text \<open>
  Claim C1 as stated fails on a tie. In the table below Ron stands before Harry and both
  have the spread 10, the largest: with \<open>top_n = 1\<close> the order of the table would keep Ron,
  and \<open>filter_top_characters\<close> keeps Harry.
\<close>

theorem tie_not_broken_by_table_order:
  "map Character tied_spreads_table = [''Ron'', ''Harry'', ''Albus'', ''Ron'', ''Harry'', ''Albus'']
   \<and> spread tied_spreads_table ''Ron'' = Some 10
   \<and> spread tied_spreads_table ''Harry'' = Some 10
   \<and> spread tied_spreads_table ''Albus'' = Some 5
   \<and> top_by_table_order tied_spreads_table 1 = [''Ron'']
   \<and> filter_top_characters (Frame tied_spreads_table) 1 =
       Inr (Frame [row ''n1'' ''Harry'' (Some 11), row ''n2'' ''Harry'' (Some 1)])
   \<and> filter_top_characters (Frame tied_spreads_table) 1 \<noteq>
       Inr (Frame (filter (\<lambda>r. Character r \<in> set (top_by_table_order tied_spreads_table 1))
                     tied_spreads_table))"
proof -
  have "map Character tied_spreads_table = [''Ron'', ''Harry'', ''Albus'', ''Ron'', ''Harry'', ''Albus'']"
    by (simp add: table_defs)
  moreover have "filter_top_characters (Frame tied_spreads_table) 1 =
       Inr (Frame [row ''n1'' ''Harry'' (Some 11), row ''n2'' ''Harry'' (Some 1)])"
    by (simp add: filter_top_characters_Frame selected_tied_spreads) (simp add: table_defs)
  moreover have "filter (\<lambda>r. Character r \<in> set [''Ron'']) tied_spreads_table
      = [row ''n1'' ''Ron'' (Some 1), row ''n2'' ''Ron'' (Some 11)]"
    by (simp add: table_defs)
  ultimately show ?thesis
    by (simp add: spread_tied_spreads top_by_table_order_tied_spreads) (simp add: row_def)
qed

lemma count_list_filter:
  "count_list (filter P xs) x = (if P x then count_list xs x else 0)"
  by (induction xs) auto

text \<open>
  Claim C8. Whenever \<open>filter_top_characters\<close> returns a frame, its rows are exactly the
  rows of the input whose character is selected, unchanged and in their original order: a
  subsequence of the input in which every row of a selected character occurs as often as
  in the input, and no other row occurs.
\<close>

theorem filter_top_characters_subsequence:
  assumes "filter_top_characters df n = Inr filtered_df"
  shows "rows filtered_df =
           filter (\<lambda>r. Character r \<in> set (selected_characters (rows df) n)) (rows df)
         \<and> subseq (rows filtered_df) (rows df)
         \<and> (\<forall>r. count_list (rows filtered_df) r =
                (if Character r \<in> set (selected_characters (rows df) n)
                 then count_list (rows df) r else 0))"
proof (cases df)
  case NoColumns
  with assms show ?thesis
    by (simp add: filter_top_characters_def calculate_change_in_frequency_def)
next
  case (Frame rs)
  let ?P = "\<lambda>r. Character r \<in> set (selected_characters rs n)"
  from assms Frame have out: "filtered_df = Frame (filter ?P rs)"
    by (simp add: filter_top_characters_Frame)
  with Frame show ?thesis by (simp add: count_list_filter)
qed

lemma selected_absent_2: "selected_characters absent_character_table 2 = [''Harry'', ''Albus'']"
proof -
  have "sort (remdups (map Character absent_character_table)) = [''Albus'', ''Harry'', ''Ron'']"
    by (simp add: table_defs)
  moreover have "spread absent_character_table ''Albus'' = Some 0"
    "spread absent_character_table ''Harry'' = Some 3"
    "spread absent_character_table ''Ron'' = None"
    by (simp_all add: spread_def present_values_def table_defs)
  ultimately show ?thesis
    by (simp add: selected_characters_eq sort_values_descending_def)
qed

theorem filter_top_characters_subsequence_witness:
  "filter_top_characters (Frame absent_character_table) 2 =
     Inr (Frame [row ''n1'' ''Harry'' (Some 2), row ''n1'' ''Albus'' (Some 4),
                 row ''n2'' ''Harry'' (Some 5), row ''n2'' ''Albus'' None])
   \<and> subseq [row ''n1'' ''Harry'' (Some 2), row ''n1'' ''Albus'' (Some 4),
              row ''n2'' ''Harry'' (Some 5), row ''n2'' ''Albus'' None] absent_character_table
   \<and> count_list [row ''n1'' ''Harry'' (Some 2), row ''n1'' ''Albus'' (Some 4),
              row ''n2'' ''Harry'' (Some 5), row ''n2'' ''Albus'' None] (row ''n1'' ''Ron'' None) = 0"
proof -
  have eq: "filter_top_characters (Frame absent_character_table) 2 =
     Inr (Frame [row ''n1'' ''Harry'' (Some 2), row ''n1'' ''Albus'' (Some 4),
                 row ''n2'' ''Harry'' (Some 5), row ''n2'' ''Albus'' None])"
    by (simp add: filter_top_characters_Frame selected_absent_2) (simp add: table_defs)
  have "Character (row ''n1'' ''Ron'' None) \<notin> set (selected_characters absent_character_table 2)"
    by (simp add: selected_absent_2 row_def)
  with filter_top_characters_subsequence [OF eq] eq show ?thesis
    by simp
qed

lemma map_of_graph: "c \<in> set ks \<Longrightarrow> map_of (map (\<lambda>k. (k, f k)) ks) c = Some (f c)"
  by (induction ks) auto

lemma spread_absent:
  "(\<forall>r \<in> set rs. Character r = c \<longrightarrow> Frequency r = None) \<Longrightarrow> spread rs c = None"
  by (simp add: spread_def present_values_def filter_empty_conv)

lemma spread_single: "length (present_values rs c) = 1 \<Longrightarrow> spread rs c = Some 0"
proof -
  assume "length (present_values rs c) = 1"
  then obtain v where "present_values rs c = [v]"
    by (cases "present_values rs c") auto
  then show ?thesis by (simp add: spread_def)
qed

lemma undefined_spread_selected_last:
  assumes "c \<in> set (selected_characters rs n)" and "spread rs c = None"
  shows "{c' \<in> characters rs. spread rs c' \<noteq> None} \<subseteq> set (selected_characters rs n)"
    and "card {c' \<in> characters rs. spread rs c' \<noteq> None} < nat n"
proof -
  let ?D = "{c' \<in> characters rs. spread rs c' \<noteq> None}"
  show sub: "?D \<subseteq> set (selected_characters rs n)"
  proof
    fix c' assume "c' \<in> ?D"
    then have c': "c' \<in> characters rs" "spread rs c' \<noteq> None" by auto
    show "c' \<in> set (selected_characters rs n)"
    proof (rule ccontr)
      assume "c' \<notin> set (selected_characters rs n)"
      from selected_characters_ranking [OF assms(1) c'(1) this] assms(2) c'(2)
      show False by (auto simp: ranks_before_def)
    qed
  qed
  have "c \<notin> ?D" using assms(2) by simp
  with sub assms(1) have "?D \<subset> set (selected_characters rs n)" by blast
  then have "card ?D < card (set (selected_characters rs n))"
    by (intro psubset_card_mono) auto
  also have "\<dots> = length (selected_characters rs n)"
    using distinct_selected_characters by (rule distinct_card)
  also have "\<dots> \<le> nat n"
    by (simp add: length_selected_characters)
  finally show "card ?D < nat n" .
qed

text \<open>
  Claim C9, as amended. A character whose frequency is absent in every novel has an
  undefined spread, which ranks behind every defined one: if such a character is selected,
  then every character with a defined spread is selected as well and \<open>top_n\<close> exceeds
  their number. A character with exactly one present frequency has the spread 0.
\<close>

theorem absent_character_spread_and_selection:
  assumes "calculate_change_in_frequency (Frame rs) = Inr max_min_diff"
      and "c \<in> characters rs"
  shows "((\<forall>r \<in> set rs. Character r = c \<longrightarrow> Frequency r = None) \<longrightarrow>
            map_of max_min_diff c = Some None
            \<and> (c \<in> set (selected_characters rs n) \<longrightarrow>
                 {c' \<in> characters rs. spread rs c' \<noteq> None} \<subseteq> set (selected_characters rs n)
                 \<and> card {c' \<in> characters rs. spread rs c' \<noteq> None} < nat n))
         \<and> (length (present_values rs c) = 1 \<longrightarrow> map_of max_min_diff c = Some (Some 0))"
proof -
  from assms(1) have s: "max_min_diff = map (\<lambda>c. (c, spread rs c)) (sort (remdups (map Character rs)))"
    by (simp add: calculate_change_in_frequency_Frame)
  from assms(2) have "c \<in> set (sort (remdups (map Character rs)))"
    by (simp add: characters_def)
  then have entry: "map_of max_min_diff c = Some (spread rs c)"
    unfolding s by (rule map_of_graph)
  show ?thesis
    using entry spread_absent [of rs c] spread_single [of rs c]
      undefined_spread_selected_last [of c rs n]
    by auto
qed

lemma series_absent:
  "calculate_change_in_frequency (Frame absent_character_table) =
     Inr [(''Albus'', Some 0), (''Harry'', Some 3), (''Ron'', None)]"
proof -
  have "sort (remdups (map Character absent_character_table)) = [''Albus'', ''Harry'', ''Ron'']"
    by (simp add: table_defs)
  moreover have "spread absent_character_table ''Albus'' = Some 0"
    "spread absent_character_table ''Harry'' = Some 3"
    "spread absent_character_table ''Ron'' = None"
    by (simp_all add: spread_def present_values_def table_defs)
  ultimately show ?thesis
    by (simp add: calculate_change_in_frequency_Frame)
qed

lemma selected_absent_10:
  "selected_characters absent_character_table 10 = [''Harry'', ''Albus'', ''Ron'']"
  by (simp add: selected_characters_def series_absent top_characters_def nlargest_def
      sort_values_descending_def)

theorem absent_character_spread_and_selection_witness:
  "map_of [(''Albus'', Some 0), (''Harry'', Some 3), (''Ron'', None :: nat option)] ''Ron'' = Some None
   \<and> ''Ron'' \<in> set (selected_characters absent_character_table 10)
   \<and> card {c' \<in> characters absent_character_table. spread absent_character_table c' \<noteq> None}
        < nat 10
   \<and> length (present_values absent_character_table ''Albus'') = 1
   \<and> map_of [(''Albus'', Some (0::nat)), (''Harry'', Some 3), (''Ron'', None)] ''Albus''
        = Some (Some 0)"
proof -
  have chars: "''Ron'' \<in> characters absent_character_table"
    "''Albus'' \<in> characters absent_character_table"
    by (simp_all add: characters_def table_defs)
  have absent: "\<forall>r \<in> set absent_character_table. Character r = ''Ron'' \<longrightarrow> Frequency r = None"
    by (simp add: table_defs)
  have single: "length (present_values absent_character_table ''Albus'') = 1"
    by (simp add: present_values_def table_defs)
  have sel: "''Ron'' \<in> set (selected_characters absent_character_table 10)"
    by (simp add: selected_absent_10)
  from absent_character_spread_and_selection [OF series_absent chars(1), of 10]
       absent_character_spread_and_selection [OF series_absent chars(2), of 10]
       absent single sel
  show ?thesis by simp
qed

text \<open>
  Claim C9 as stated fails: \<open>nlargest\<close> fills the places that the defined spreads leave
  free with the undefined ones. In the table below Ron is absent from both novels, and
  with \<open>top_n = 10\<close>, the value the script uses, Ron is selected and his rows are kept.
\<close>

theorem absent_character_is_selected:
  "map Frequency (filter (\<lambda>r. Character r = ''Ron'') absent_character_table) = [None, None]
   \<and> spread absent_character_table ''Ron'' = None
   \<and> ''Ron'' \<in> set (selected_characters absent_character_table 10)
   \<and> filter_top_characters (Frame absent_character_table) 10 = Inr (Frame absent_character_table)"
proof -
  have "map Frequency (filter (\<lambda>r. Character r = ''Ron'') absent_character_table) = [None, None]"
    by (simp add: table_defs)
  moreover have "spread absent_character_table ''Ron'' = None"
    by (simp add: spread_def present_values_def table_defs)
  moreover have "filter (\<lambda>r. Character r \<in> set [''Harry'', ''Albus'', ''Ron''])
        absent_character_table = absent_character_table"
    by (simp add: table_defs)
  ultimately show ?thesis
    by (simp add: filter_top_characters_Frame selected_absent_10)
qed

subsection \<open>Ordering by maximum\<close>

lemma sorted_characters_eq:
  "sorted_characters rs =
     map fst (sort_values_descending
       (map (\<lambda>c. (c, max_present rs c)) (sort (remdups (map Character rs)))))"
  by (simp add: sorted_characters_def groupby_Character_def comp_def series_max_group)

lemma distinct_sorted_characters: "distinct (sorted_characters rs)"
  unfolding sorted_characters_eq
  by (rule distinct_fst_sort_values_descending) (simp add: comp_def)

lemma set_sorted_characters: "set (sorted_characters rs) = characters rs"
  by (simp add: sorted_characters_eq set_sort_values_descending image_image characters_def)

lemma ranks_before_not_below: "ranks_before a b \<Longrightarrow> not_below (snd a) (snd b)"
  by (auto simp: ranks_before_def not_below_def split: option.splits)

lemma sorted_characters_descending:
  "sorted_wrt (\<lambda>c c'. not_below (max_present rs c) (max_present rs c')) (sorted_characters rs)"
proof -
  let ?s = "map (\<lambda>c. (c, max_present rs c)) (sort (remdups (map Character rs)))"
  let ?L = "sort_values_descending ?s"
  have srt: "sorted_wrt ranks_before ?L"
    by (rule sorted_wrt_sort_values_descending) (rule strict_sorted_series)
  have ent: "snd a = max_present rs (fst a)" if "a \<in> set ?L" for a
    using that by (auto simp: set_sort_values_descending)
  have "sorted_wrt (\<lambda>a b. not_below (max_present rs (fst a)) (max_present rs (fst b))) ?L"
  proof (rule sorted_wrt_mono_rel [OF _ srt])
    fix a b
    assume "a \<in> set ?L" "b \<in> set ?L" "ranks_before a b"
    then show "not_below (max_present rs (fst a)) (max_present rs (fst b))"
      using ent [of a] ent [of b] ranks_before_not_below [of a b] by simp
  qed
  then show ?thesis
    by (simp add: sorted_characters_eq sorted_wrt_map)
qed

lemma mset_concat_groups:
  "distinct cs \<Longrightarrow>
     mset (concat (map (\<lambda>c. filter (\<lambda>r. f r = c) rs) cs)) = mset (filter (\<lambda>r. f r \<in> set cs) rs)"
proof (induction cs)
  case Nil
  then show ?case by simp
next
  case (Cons c cs)
  have "mset (filter (\<lambda>r. f r = c) rs) + mset (filter (\<lambda>r. f r \<in> set cs) rs)
      = mset (filter (\<lambda>r. f r \<in> set (c # cs)) rs)"
    using Cons.prems by (induction rs) auto
  with Cons show ?case by simp
qed

lemma mset_ordered_rows:
  "mset (concat (map (\<lambda>c. filter (\<lambda>r. Character r = c) rs) (sorted_characters rs))) = mset rs"
proof -
  have "filter (\<lambda>r. Character r \<in> set (sorted_characters rs)) rs = rs"
    by (simp add: set_sorted_characters characters_def)
  with mset_concat_groups [OF distinct_sorted_characters, of Character rs rs]
  show ?thesis by simp
qed

text \<open>
  Claim C7, as amended. \<open>order_characters_by_max_appearance\<close> lists every character of
  the frame once, in descending order of the maximum present frequency, where equal maxima
  may follow each other and characters without a present frequency come last; the rows of
  the result are the rows of the input, grouped by character in that order.
\<close>

theorem order_characters_descending:
  "order_characters_by_max_appearance (Frame rs) =
     Inr (Frame (concat (map (\<lambda>c. filter (\<lambda>r. Character r = c) rs) (sorted_characters rs))))
   \<and> distinct (sorted_characters rs)
   \<and> set (sorted_characters rs) = characters rs
   \<and> sorted_wrt (\<lambda>c c'. not_below (max_present rs c) (max_present rs c')) (sorted_characters rs)
   \<and> mset (concat (map (\<lambda>c. filter (\<lambda>r. Character r = c) rs) (sorted_characters rs))) = mset rs"
  by (simp add: order_characters_by_max_appearance_def distinct_sorted_characters
      set_sorted_characters sorted_characters_descending mset_ordered_rows)

lemma sorted_characters_tied_maxima: "sorted_characters tied_maxima_table = [''Harry'', ''Ron'']"
proof -
  have "sort (remdups (map Character tied_maxima_table)) = [''Harry'', ''Ron'']"
    by (simp add: table_defs)
  moreover have "max_present tied_maxima_table ''Harry'' = Some 3"
    "max_present tied_maxima_table ''Ron'' = Some 3"
    by (simp_all add: max_present_def present_values_def table_defs)
  ultimately show ?thesis
    by (simp add: sorted_characters_eq sort_values_descending_def)
qed

lemma max_present_tied_maxima:
  "max_present tied_maxima_table ''Harry'' = Some 3"
  "max_present tied_maxima_table ''Ron'' = Some 3"
  by (simp_all add: max_present_def present_values_def table_defs)

theorem order_characters_descending_witness:
  "order_characters_by_max_appearance (Frame tied_maxima_table) =
     Inr (Frame [row ''n1'' ''Harry'' (Some 3), row ''n2'' ''Harry'' (Some 1),
                 row ''n1'' ''Ron'' (Some 2), row ''n2'' ''Ron'' (Some 3)])
   \<and> sorted_characters tied_maxima_table = [''Harry'', ''Ron'']
   \<and> not_below (max_present tied_maxima_table ''Harry'') (max_present tied_maxima_table ''Ron'')"
proof -
  have "concat (map (\<lambda>c. filter (\<lambda>r. Character r = c) tied_maxima_table) [''Harry'', ''Ron''])
     = [row ''n1'' ''Harry'' (Some 3), row ''n2'' ''Harry'' (Some 1),
        row ''n1'' ''Ron'' (Some 2), row ''n2'' ''Ron'' (Some 3)]"
    by (simp add: table_defs)
  with order_characters_descending [of tied_maxima_table] show ?thesis
    by (simp add: sorted_characters_tied_maxima)
qed

text \<open>
  Claim C7 as stated fails: Harry and Ron below both have the maximum 3, so the order
  Harry, Ron is not strictly descending.
\<close>

theorem equal_maxima_not_strictly_descending:
  "sorted_characters tied_maxima_table = [''Harry'', ''Ron'']
   \<and> max_present tied_maxima_table ''Harry'' = Some 3
   \<and> max_present tied_maxima_table ''Ron'' = Some 3
   \<and> \<not> sorted_wrt (\<lambda>c c'. strictly_above (max_present tied_maxima_table c)
                                       (max_present tied_maxima_table c'))
          (sorted_characters tied_maxima_table)"
  by (simp add: sorted_characters_tied_maxima max_present_tied_maxima strictly_above_def)

subsection \<open>The records of the table\<close>

lemma nth_novel_records:
  "j < length ws \<Longrightarrow>
     novel_records t d ws ! j =
       \<lparr>Novel = t, Character = capitalize (ws ! j),
        Frequency = (if 0 < dict_get d (ws ! j) 0 then Some (dict_get d (ws ! j) 0) else None)\<rparr>"
  by (simp add: novel_records_def Let_def)

lemma dict_get_process_novel:
  "w \<in> set ws \<Longrightarrow> dict_get (snd (process_novel tok rf p ws)) w 0 = novel_count tok rf p w"
  by (simp add: process_novel_def novel_count_def occurrences_def dict_get_def
      count_word_frequencies_lookup split: sum.splits)

lemma novel_blocks_length:
  "\<forall>x \<in> set novels.
     length ((\<lambda>(p, t). novel_records t (snd (process_novel tok rf p ws)) ws) x) = length ws"
  by (auto simp: length_novel_records)

lemma nth_rows_prepare_plot_data:
  assumes "i < length ps" "i < length ts" "j < length ws"
  shows "rows (snd (prepare_plot_data tok rf ps ts ws)) ! (i * length ws + j) =
           \<lparr>Novel = ts ! i, Character = capitalize (ws ! j),
            Frequency = (if 0 < novel_count tok rf (ps ! i) (ws ! j)
                         then Some (novel_count tok rf (ps ! i) (ws ! j)) else None)\<rparr>"
proof -
  let ?f = "\<lambda>(p, t). novel_records t (snd (process_novel tok rf p ws)) ws"
  from assms have i: "i < length (zip ps ts)" by simp
  have "concat (map ?f (zip ps ts)) ! (i * length ws + j) = ?f (zip ps ts ! i) ! j"
    using novel_blocks_length i assms(3) by (rule nth_concat_blocks)
  also have "\<dots> = novel_records (ts ! i) (snd (process_novel tok rf (ps ! i) ws)) ws ! j"
    using assms by simp
  finally show ?thesis
    using assms(3) by (simp add: rows_prepare_plot_data nth_novel_records dict_get_process_novel)
qed

lemma block_rows_prepare_plot_data:
  assumes "i < length ps" "i < length ts"
  shows "take (length ws) (drop (i * length ws) (rows (snd (prepare_plot_data tok rf ps ts ws)))) =
           novel_records (ts ! i) (snd (process_novel tok rf (ps ! i) ws)) ws"
proof -
  let ?f = "\<lambda>(p, t). novel_records t (snd (process_novel tok rf p ws)) ws"
  from assms have i: "i < length (zip ps ts)" by simp
  have "take (length ws) (drop (i * length ws) (concat (map ?f (zip ps ts)))) = ?f (zip ps ts ! i)"
    using novel_blocks_length i by (rule block_concat_blocks)
  with assms show ?thesis by (simp add: rows_prepare_plot_data)
qed

lemma length_rows_prepare_plot_data:
  "length (rows (snd (prepare_plot_data tok rf ps ts ws))) =
     min (length ps) (length ts) * length ws"
  using length_concat_blocks [OF novel_blocks_length [of "zip ps ts" tok rf ws]]
  by (simp add: rows_prepare_plot_data)

lemma rows_single_novel:
  "rows (snd (prepare_plot_data tok rf [p] [t] ws)) =
     novel_records t (snd (process_novel tok rf p ws)) ws"
  by (simp add: rows_prepare_plot_data)






text \<open>
  Claim C6. For novel paths and titles of equal length, the table of \<open>prepare_plot_data\<close>
  has one record for every pair of a novel and a vocabulary word, as many as the novels
  times the words: the record of novel \<open>i\<close> and word \<open>j\<close> stands at position
  \<open>i * |vocabulary| + j\<close>, novels outside and words inside.
\<close>

theorem prepare_plot_data_shape:
  assumes "length novel_paths = length novel_titles"
  shows "length (rows (snd (prepare_plot_data word_tokenize read_file novel_paths novel_titles
                              target_words)))
           = length novel_paths * length target_words
         \<and> (\<forall>i < length novel_paths. \<forall>j < length target_words.
               Novel (rows (snd (prepare_plot_data word_tokenize read_file novel_paths
                        novel_titles target_words)) ! (i * length target_words + j))
                 = novel_titles ! i
               \<and> Character (rows (snd (prepare_plot_data word_tokenize read_file novel_paths
                        novel_titles target_words)) ! (i * length target_words + j))
                 = capitalize (target_words ! j))"
  using assms
  by (simp add: length_rows_prepare_plot_data nth_rows_prepare_plot_data)


theorem prepare_plot_data_shape_witness:
  "length (rows (snd (prepare_plot_data simple_tokenize example_files
       [''novel1.txt'', ''novel2.txt''] [''novel1'', ''novel2''] [''harry'', ''ron''])))
     = length [''novel1.txt'', ''novel2.txt''] * length [''harry'', ''ron'']
   \<and> Novel (rows (snd (prepare_plot_data simple_tokenize example_files
       [''novel1.txt'', ''novel2.txt''] [''novel1'', ''novel2''] [''harry'', ''ron'']))
         ! (1 * length [''harry'', ''ron''] + 0)) = ''novel2''
   \<and> Character (rows (snd (prepare_plot_data simple_tokenize example_files
       [''novel1.txt'', ''novel2.txt''] [''novel1'', ''novel2''] [''harry'', ''ron'']))
         ! (1 * length [''harry'', ''ron''] + 0)) = ''Harry''"
proof -
  let ?ps = "[''novel1.txt'', ''novel2.txt'']" and ?ts = "[''novel1'', ''novel2'']"
  let ?ws = "[''harry'', ''ron'']"
  let ?df = "rows (snd (prepare_plot_data simple_tokenize example_files ?ps ?ts ?ws))"
  have len: "length ?ps = length ?ts"
    by simp
  note shape = prepare_plot_data_shape [OF len, of simple_tokenize example_files ?ws]
  have size: "length ?df = length ?ps * length ?ws"
    using shape by (rule conjunct1)
  have entry: "Novel (?df ! (1 * length ?ws + 0)) = ?ts ! 1
      \<and> Character (?df ! (1 * length ?ws + 0)) = capitalize (?ws ! 0)"
    using shape [THEN conjunct2, rule_format, of 1 0] by simp
  show ?thesis
    using size entry by (simp add: lower_def char_tables)
qed






subsection \<open>Unreadable novels\<close>

lemma process_novel_unreadable:
  "read_file path = Inl e \<Longrightarrow>
     process_novel word_tokenize read_file path target_words =
       ([''Error reading the file '' @ path @ '': '' @ e], Map.empty)"
  by (simp add: process_novel_def)

lemma novel_records_empty:
  "novel_records title Map.empty target_words =
     map (\<lambda>w. \<lparr>Novel = title, Character = capitalize w, Frequency = None\<rparr>) target_words"
  by (simp add: novel_records_def dict_get_def)

lemma printed_contains:
  assumes "i < length ps" "i < length ts"
  shows "set (fst (process_novel tok rf (ps ! i) ws)) \<subseteq> set (fst (prepare_plot_data tok rf ps ts ws))"
proof -
  from assms have "(ps ! i, ts ! i) \<in> set (zip ps ts)"
    by (metis in_set_zip fst_conv snd_conv)
  then show ?thesis
    by (force simp: printed_prepare_plot_data)
qed

lemma rows_of_title:
  assumes "distinct ts" and "i < length ps" "i < length ts"
      and "r \<in> set (rows (snd (prepare_plot_data tok rf ps ts ws)))" and "Novel r = ts ! i"
  shows "r \<in> set (novel_records (ts ! i) (snd (process_novel tok rf (ps ! i) ws)) ws)"
proof -
  from assms(4) obtain p t where pt: "(p, t) \<in> set (zip ps ts)"
      and r: "r \<in> set (novel_records t (snd (process_novel tok rf p ws)) ws)"
    by (auto simp: rows_prepare_plot_data)
  from r have "Novel r = t" by (auto simp: novel_records_def Let_def)
  with assms(5) have t: "t = ts ! i" by simp
  from pt obtain k where k: "k < length ps" "k < length ts" "ps ! k = p" "ts ! k = t"
    by (auto simp: in_set_zip)
  with t assms(1,3) have "k = i" by (simp add: nth_eq_iff_index_eq)
  with k r t show ?thesis by simp
qed

text \<open>
  Claim C5. If the file of novel \<open>i\<close> cannot be read, \<open>process_novel\<close> prints the
  diagnostic and returns the empty dictionary instead of raising, and \<open>prepare_plot_data\<close>
  still returns the whole table: the diagnostic is among its printed lines, the records of
  novel \<open>i\<close> are all absent (they are all the records with its title when the titles are
  distinct), and the records of every novel are the ones that the novel yields when it is
  processed alone with the same vocabulary.
\<close>

theorem unreadable_novel_is_skipped:
  assumes "i < length novel_paths" and "i < length novel_titles"
      and "read_file (novel_paths ! i) = Inl e"
  shows "process_novel word_tokenize read_file (novel_paths ! i) target_words
           = ([''Error reading the file '' @ novel_paths ! i @ '': '' @ e], Map.empty)
         \<and> ''Error reading the file '' @ novel_paths ! i @ '': '' @ e
             \<in> set (fst (prepare_plot_data word_tokenize read_file novel_paths novel_titles
                           target_words))
         \<and> length (rows (snd (prepare_plot_data word_tokenize read_file novel_paths novel_titles
                                target_words)))
             = min (length novel_paths) (length novel_titles) * length target_words
         \<and> take (length target_words) (drop (i * length target_words)
              (rows (snd (prepare_plot_data word_tokenize read_file novel_paths novel_titles
                            target_words))))
             = map (\<lambda>w. \<lparr>Novel = novel_titles ! i, Character = capitalize w, Frequency = None\<rparr>)
                 target_words
         \<and> (distinct novel_titles \<longrightarrow>
              (\<forall>r \<in> set (rows (snd (prepare_plot_data word_tokenize read_file novel_paths
                                      novel_titles target_words))).
                 Novel r = novel_titles ! i \<longrightarrow> Frequency r = None))
         \<and> (\<forall>k < min (length novel_paths) (length novel_titles).
              take (length target_words) (drop (k * length target_words)
                (rows (snd (prepare_plot_data word_tokenize read_file novel_paths novel_titles
                              target_words))))
              = rows (snd (prepare_plot_data word_tokenize read_file [novel_paths ! k]
                             [novel_titles ! k] target_words)))"
proof -
  let ?df = "snd (prepare_plot_data word_tokenize read_file novel_paths novel_titles target_words)"
  let ?msg = "''Error reading the file '' @ novel_paths ! i @ '': '' @ e"
  have pn: "process_novel word_tokenize read_file (novel_paths ! i) target_words
      = ([?msg], Map.empty)"
    using assms(3) by (rule process_novel_unreadable)
  have msg: "?msg \<in> set (fst (prepare_plot_data word_tokenize read_file novel_paths novel_titles
                           target_words))"
    using printed_contains [OF assms(1,2), of word_tokenize read_file target_words]
    by (simp add: pn)
  have block: "take (length target_words) (drop (i * length target_words) (rows ?df))
      = map (\<lambda>w. \<lparr>Novel = novel_titles ! i, Character = capitalize w, Frequency = None\<rparr>)
          target_words"
    using block_rows_prepare_plot_data [OF assms(1,2), of target_words word_tokenize read_file]
    by (simp add: pn novel_records_empty)
  have title: "Frequency r = None"
    if "distinct novel_titles" "r \<in> set (rows ?df)" "Novel r = novel_titles ! i" for r
  proof -
    from rows_of_title [OF that(1) assms(1,2) that(2,3)]
    have "r \<in> set (map (\<lambda>w. \<lparr>Novel = novel_titles ! i, Character = capitalize w,
                               Frequency = None\<rparr>) target_words)"
      by (simp add: pn novel_records_empty)
    then show ?thesis by auto
  qed
  have alone: "take (length target_words) (drop (k * length target_words) (rows ?df))
      = rows (snd (prepare_plot_data word_tokenize read_file [novel_paths ! k]
                     [novel_titles ! k] target_words))"
    if "k < min (length novel_paths) (length novel_titles)" for k
    using that by (simp add: block_rows_prepare_plot_data rows_single_novel)
  from pn msg block title alone show ?thesis
    by (simp add: length_rows_prepare_plot_data)
qed

theorem unreadable_novel_is_skipped_witness:
  "example_files ''novel3.txt'' = Inl ''No such file or directory''
   \<and> ''Error reading the file novel3.txt: No such file or directory''
       \<in> set (fst (prepare_plot_data simple_tokenize example_files
                     [''novel1.txt'', ''novel3.txt''] [''novel1'', ''novel3''] [''harry'', ''ron'']))
   \<and> length (rows (snd (prepare_plot_data simple_tokenize example_files
                     [''novel1.txt'', ''novel3.txt''] [''novel1'', ''novel3''] [''harry'', ''ron''])))
       = 4
   \<and> take 2 (drop 2 (rows (snd (prepare_plot_data simple_tokenize example_files
                     [''novel1.txt'', ''novel3.txt''] [''novel1'', ''novel3''] [''harry'', ''ron'']))))
       = [row ''novel3'' ''Harry'' None, row ''novel3'' ''Ron'' None]
   \<and> Frequency (row ''novel3'' ''Ron'' None) = None
   \<and> take 2 (drop 0 (rows (snd (prepare_plot_data simple_tokenize example_files
                     [''novel1.txt'', ''novel3.txt''] [''novel1'', ''novel3''] [''harry'', ''ron'']))))
       = rows (snd (prepare_plot_data simple_tokenize example_files
                     [''novel1.txt''] [''novel1''] [''harry'', ''ron'']))"
proof -
  let ?ps = "[''novel1.txt'', ''novel3.txt'']" and ?ts = "[''novel1'', ''novel3'']"
  let ?ws = "[''harry'', ''ron'']"
  let ?df = "snd (prepare_plot_data simple_tokenize example_files ?ps ?ts ?ws)"
  have missing: "example_files (?ps ! 1) = Inl ''No such file or directory''"
    by (simp add: example_files_def)
  have i: "1 < length ?ps" "1 < length ?ts"
    by simp_all
  note skipped = unreadable_novel_is_skipped
    [where i = 1 and novel_paths = ?ps and novel_titles = ?ts and read_file = example_files
       and word_tokenize = simple_tokenize and target_words = ?ws, OF i missing]
  have msg: "''Error reading the file '' @ ?ps ! 1 @ '': '' @ ''No such file or directory''
      \<in> set (fst (prepare_plot_data simple_tokenize example_files ?ps ?ts ?ws))"
    using skipped by (rule conjunct2 [THEN conjunct1])
  have len: "length (rows ?df) = min (length ?ps) (length ?ts) * length ?ws"
    using skipped by (rule conjunct2 [THEN conjunct2, THEN conjunct1])
  have block: "take (length ?ws) (drop (1 * length ?ws) (rows ?df))
      = map (\<lambda>w. \<lparr>Novel = ?ts ! 1, Character = capitalize w, Frequency = None\<rparr>) ?ws"
    using skipped by (rule conjunct2 [THEN conjunct2, THEN conjunct2, THEN conjunct1])
  have all: "\<forall>k < min (length ?ps) (length ?ts).
          take (length ?ws) (drop (k * length ?ws) (rows ?df))
          = rows (snd (prepare_plot_data simple_tokenize example_files [?ps ! k] [?ts ! k] ?ws))"
    using skipped
    by (rule conjunct2 [THEN conjunct2, THEN conjunct2, THEN conjunct2, THEN conjunct2])
  have alone: "take (length ?ws) (drop (0 * length ?ws) (rows ?df))
          = rows (snd (prepare_plot_data simple_tokenize example_files [?ps ! 0] [?ts ! 0] ?ws))"
    using all [rule_format, of 0] by simp
  from msg have msg': "''Error reading the file novel3.txt: No such file or directory''
      \<in> set (fst (prepare_plot_data simple_tokenize example_files ?ps ?ts ?ws))"
    by simp
  from len have len': "length (rows ?df) = 4" by simp
  from block have block': "take 2 (drop 2 (rows ?df))
      = [row ''novel3'' ''Harry'' None, row ''novel3'' ''Ron'' None]"
    by (simp add: row_def lower_def char_tables numeral_2_eq_2)
  from alone have alone': "take 2 (drop 0 (rows ?df))
      = rows (snd (prepare_plot_data simple_tokenize example_files
                     [''novel1.txt''] [''novel1''] ?ws))"
    by (simp add: numeral_2_eq_2)
  from missing msg' len' block' alone' show ?thesis
    by (simp add: row_def)
qed

end
